theory Spec2Isabelle
  imports Main "HOL-Library.Product_Lexorder"
begin

section \<open>Data model of \<open>app/main.py\<close>\<close>

text \<open>
  The service keeps two tables in an SQLite file. A table is modelled as the list of its
  rows in rowid order, which is the order in which a full table scan visits them.
  Python and pydantic integers are unbounded, so every integer of a request is an \<open>int\<close>.
  An INTEGER column of SQLite holds 64-bit signed values only: a handler that binds an
  integer outside that range gets an exception from the driver (\<open>sqlite_int\<close> below), so
  the rows of a table only ever hold integers of that range, written as \<open>int\<close> too.
  A \<open>DateTime\<close> column holds a naive date and time; it is modelled as the \<open>int\<close> that
  counts time units on that axis, so that the difference of two of them is again an \<open>int\<close>.
  A nullable column is an \<open>option\<close>.
\<close>

type_synonym timestamp = int

text \<open>class \<open>Elevator(Base)\<close>, lines 17 to 28.\<close>

record elevator =
  el_id :: int
  el_name :: string
  el_location :: string

text \<open>class \<open>Movement(Base)\<close>, lines 30 to 47. Only \<open>departure_time\<close> is nullable.\<close>

record movement =
  mv_id :: int
  elevator_id :: int
  start_floor :: int
  end_floor :: int
  arrival_time :: timestamp
  departure_time :: "timestamp option"

text \<open>The pydantic schemas \<open>ElevatorCreate\<close> and \<open>MovementCreate\<close>, lines 51 to 59.\<close>

record elevator_create =
  ec_name :: string
  ec_location :: string

record movement_create =
  mc_elevator_id :: int
  mc_start_floor :: int
  mc_end_floor :: int
  mc_departure_time :: "timestamp option"

record database =
  elevators :: "elevator list"
  movements :: "movement list"

text \<open>
  A handler reads two clocks. \<open>datetime.now()\<close> (line 118) is the local wall clock of the
  Python process. The column default \<open>func.now()\<close> (line 46) is evaluated by the database
  inside the INSERT statement, as its \<open>CURRENT_TIMESTAMP\<close>. Both readings are inputs of a
  call.
\<close>

record clock =
  py_now :: timestamp
  db_now :: timestamp

text \<open>
  What a handler can raise. \<open>OverflowError\<close> is what the SQLite driver raises when a Python
  integer that does not fit the 64-bit signed INTEGER of SQLite is bound as a parameter of
  a statement; nothing in the service checks the range before. \<open>TypeError\<close> is Python's,
  for arithmetic on \<open>None\<close>. \<open>RequestValidationError\<close> is the framework's, answered with
  status 422, when a required parameter of a handler is missing from the request.
\<close>

datatype py_error = TypeError | OverflowError | RequestValidationError

definition sqlite_int :: "int \<Rightarrow> bool" where
  "sqlite_int n = (- (2 ^ 63) \<le> n \<and> n < 2 ^ 63)"

definition empty_database :: database where
  "empty_database = \<lparr>elevators = [], movements = []\<rparr>"

text \<open>
  An \<open>Integer\<close> primary key is an alias of the rowid: an INSERT that gives no value takes
  one more than the largest rowid of the table, and 1 in an empty table.
\<close>

definition next_rowid :: "int list \<Rightarrow> int" where
  "next_rowid ids = (case ids of [] \<Rightarrow> 1 | i # rest \<Rightarrow> fold max rest i + 1)"

section \<open>Elevator registry\<close>

text \<open>\<open>get_elevators\<close>, lines 77 to 85.\<close>

definition get_elevators :: "database \<Rightarrow> elevator list" where
  "get_elevators db = elevators db"

text \<open>\<open>create_elevator\<close>, lines 88 to 101: add, commit, refresh, return the row.\<close>

definition create_elevator :: "elevator_create \<Rightarrow> database \<Rightarrow> elevator \<times> database" where
  "create_elevator e db =
     (let db_elevator = \<lparr>el_id = next_rowid (map el_id (elevators db)),
                          el_name = ec_name e, el_location = ec_location e\<rparr>
      in (db_elevator, db\<lparr>elevators := elevators db @ [db_elevator]\<rparr>))"

section \<open>Movement log\<close>

text \<open>
  The filter of line 115: same \<open>elevator_id\<close>, and \<open>departure_time\<close> null.
\<close>

definition open_for :: "int \<Rightarrow> movement \<Rightarrow> bool" where
  "open_for eid r = (elevator_id r = eid \<and> departure_time r = None)"

text \<open>
  Lines 118 to 120: the attribute assignment followed by \<open>commit\<close> is an UPDATE of
  \<open>departure_time\<close> on the rows whose primary key is that of the matched object.
\<close>

definition set_departure :: "int \<Rightarrow> timestamp \<Rightarrow> movement list \<Rightarrow> movement list" where
  "set_departure i t rows =
     map (\<lambda>r. if mv_id r = i then r\<lparr>departure_time := Some t\<rparr> else r) rows"

text \<open>
  Lines 113 and 122 to 124: the INSERT of the new row. The id is generated, the
  \<open>arrival_time\<close> is the column default, the other columns come from the request body.
\<close>

definition new_movement :: "movement_create \<Rightarrow> timestamp \<Rightarrow> movement list \<Rightarrow> movement" where
  "new_movement m t rows =
     \<lparr>mv_id = next_rowid (map mv_id rows),
      elevator_id = mc_elevator_id m,
      start_floor = mc_start_floor m,
      end_floor = mc_end_floor m,
      arrival_time = t,
      departure_time = mc_departure_time m\<rparr>"

text \<open>The integers of a request that \<open>log_movement\<close> binds as statement parameters.\<close>

definition fits_sqlite :: "movement_create \<Rightarrow> bool" where
  "fits_sqlite m =
     (sqlite_int (mc_elevator_id m) \<and> sqlite_int (mc_start_floor m) \<and>
      sqlite_int (mc_end_floor m))"

text \<open>
  \<open>log_movement\<close>, lines 104 to 125. It returns the row or the exception, and the database
  as the call leaves it.
  \<^item> Line 115 binds \<open>elevator_id\<close> in the SELECT: outside the 64-bit range the driver
    raises, before anything is written. \<open>.first()\<close> on a query with no ORDER BY takes the
    first matching row of the scan, here \<open>find\<close> on the list of rows.
  \<^item> Lines 116 to 120 close the matched row and commit.
  \<^item> Lines 122 to 124 bind \<open>elevator_id\<close>, \<open>start_floor\<close> and \<open>end_floor\<close> in the INSERT:
    when a floor is outside the 64-bit range the driver raises there, and the commit of
    line 119 stays.
\<close>

definition log_movement ::
  "movement_create \<Rightarrow> clock \<Rightarrow> database \<Rightarrow> (py_error + movement) \<times> database" where
  "log_movement m clk db =
     (if sqlite_int (mc_elevator_id m) then
        (let db_movement_match = find (open_for (mc_elevator_id m)) (movements db);
             rows1 = (case db_movement_match of
                        None \<Rightarrow> movements db
                      | Some x \<Rightarrow> set_departure (mv_id x) (py_now clk) (movements db))
         in if sqlite_int (mc_start_floor m) \<and> sqlite_int (mc_end_floor m) then
              (let db_movement = new_movement m (db_now clk) rows1
               in (Inr db_movement, db\<lparr>movements := rows1 @ [db_movement]\<rparr>))
            else (Inl OverflowError, db\<lparr>movements := rows1\<rparr>))
      else (Inl OverflowError, db))"

text \<open>The first \<open>get_movements\<close>, lines 128 to 136 (route \<open>/movements/\<close>).\<close>

definition get_movements_all :: "database \<Rightarrow> movement list" where
  "get_movements_all db = movements db"

text \<open>
  The second \<open>get_movements\<close>, lines 139 to 147, as a function of its parameter \<open>eid\<close>,
  which line 147 binds in the SELECT.
\<close>

definition get_movements :: "int \<Rightarrow> database \<Rightarrow> py_error + movement list" where
  "get_movements eid db =
     (if sqlite_int eid then Inr (filter (\<lambda>r. elevator_id r = eid) (movements db))
      else Inl OverflowError)"

text \<open>
  The same handler behind its route, line 138. The path is \<open>/movements/{elevator_id}\<close> and
  the function's parameter is \<open>eid\<close>: no parameter has the name of the path segment, so
  the framework reads \<open>eid\<close> from the query string and requires it there. A request
  carries the text of the path segment and, when the query string has an \<open>eid\<close> that
  reads as an integer, that integer.
\<close>

record movements_request =
  path_elevator_id :: string
  query_eid :: "int option"

definition get_movements_route :: "movements_request \<Rightarrow> database \<Rightarrow> py_error + movement list" where
  "get_movements_route req db =
     (case query_eid req of
        None \<Rightarrow> Inl RequestValidationError
      | Some eid \<Rightarrow> get_movements eid db)"

text \<open>\<open>get_resting_elevators\<close>, lines 150 to 161.\<close>

definition get_resting_elevators :: "database \<Rightarrow> movement list" where
  "get_resting_elevators db = filter (\<lambda>r. departure_time r = None) (movements db)"

text \<open>
  The primary key of \<open>movements\<close>: no two rows share an id. The database enforces it.
\<close>

definition primary_key :: "movement list \<Rightarrow> bool" where
  "primary_key rows = distinct (map mv_id rows)"

text \<open>
  The invariant of the movement log: for each \<open>elevator_id\<close> that occurs in the table,
  at most one row with that \<open>elevator_id\<close> has a null \<open>departure_time\<close>.
\<close>

definition one_open_per_elevator :: "movement list \<Rightarrow> bool" where
  "one_open_per_elevator rows =
     list_all (\<lambda>e. length (filter (open_for e) rows) \<le> 1) (map elevator_id rows)"

text \<open>A row whose \<open>departure_time\<close> is set, and not before its \<open>arrival_time\<close>.\<close>

definition departs_after_arrival :: "movement \<Rightarrow> bool" where
  "departs_after_arrival r =
     (case departure_time r of None \<Rightarrow> False | Some d \<Rightarrow> arrival_time r \<le> d)"

section \<open>Reporting\<close>

text \<open>
  One tuple of the grouped query of lines 174 to 184, a field per selected column:
  \<open>d[0]\<close> to \<open>d[5]\<close>. Column 4 is \<open>count(elevator_id)\<close>; the column is not nullable, so it
  counts the rows of the group.
\<close>

record demand_row =
  d0_start_floor :: int
  d1_end_floor :: int
  d2_arrival_time :: timestamp
  d3_departure_time :: "timestamp option"
  d4_count :: nat
  d5_elevator_id :: int

record training_entry =
  requested_floor :: int
  destination_floor :: int
  count :: nat

record elapsed_entry =
  ee_start_floor :: int
  ee_end_floor :: int
  ee_elevator_id :: int
  elapsed_time_secs :: int

record ml_data =
  training_data :: "training_entry list"
  elapsed_data :: "elapsed_entry list"

definition group_key :: "movement \<Rightarrow> int \<times> int" where
  "group_key r = (start_floor r, end_floor r)"

text \<open>The rows that pass \<open>where(Movement.departure_time != None)\<close>.\<close>

definition closed_rows :: "database \<Rightarrow> movement list" where
  "closed_rows db = filter (\<lambda>r. departure_time r \<noteq> None) (movements db)"

definition group_rows :: "int \<times> int \<Rightarrow> database \<Rightarrow> movement list" where
  "group_rows k db = filter (\<lambda>r. group_key r = k) (closed_rows db)"

text \<open>The groups of \<open>group_by(start_floor, end_floor)\<close>, which the engine sorts by key.\<close>

definition group_keys :: "database \<Rightarrow> (int \<times> int) list" where
  "group_keys db = sort (remdups (map group_key (closed_rows db)))"

text \<open>
  The query. The columns that are neither grouped nor aggregated are read from one row
  of the group, and the engine chooses which: the choice is the parameter \<open>pick\<close>.
\<close>

definition group_tuple ::
  "(movement list \<Rightarrow> movement) \<Rightarrow> database \<Rightarrow> int \<times> int \<Rightarrow> demand_row" where
  "group_tuple pick db k =
     (let g = group_rows k db; rep = pick g
      in \<lparr>d0_start_floor = start_floor rep,
          d1_end_floor = end_floor rep,
          d2_arrival_time = arrival_time rep,
          d3_departure_time = departure_time rep,
          d4_count = length g,
          d5_elevator_id = elevator_id rep\<rparr>)"

definition demand_data :: "(movement list \<Rightarrow> movement) \<Rightarrow> database \<Rightarrow> demand_row list" where
  "demand_data pick db = map (group_tuple pick db) (group_keys db)"

text \<open>What is known of the engine's choice: the row it reads is a row of the group.\<close>

definition picks_from_groups :: "(movement list \<Rightarrow> movement) \<Rightarrow> database \<Rightarrow> bool" where
  "picks_from_groups pick db =
     list_all (\<lambda>k. pick (group_rows k db) \<in> set (group_rows k db)) (group_keys db)"

text \<open>\<open>d[3] - d[2]\<close>: subtracting from \<open>None\<close> raises \<open>TypeError\<close>.\<close>

definition sub_datetime :: "timestamp option \<Rightarrow> timestamp \<Rightarrow> py_error + int" where
  "sub_datetime a b = (case a of None \<Rightarrow> Inl TypeError | Some t \<Rightarrow> Inr (t - b))"

text \<open>A list comprehension whose element expression may raise: the first raise ends it.\<close>

fun comprehension :: "('a \<Rightarrow> py_error + 'b) \<Rightarrow> 'a list \<Rightarrow> py_error + 'b list" where
  "comprehension f [] = Inr []"
| "comprehension f (x # xs) =
     (case f x of
        Inl e \<Rightarrow> Inl e
      | Inr y \<Rightarrow> (case comprehension f xs of Inl e \<Rightarrow> Inl e | Inr ys \<Rightarrow> Inr (y # ys)))"

definition formatted_demand_data :: "demand_row list \<Rightarrow> training_entry list" where
  "formatted_demand_data dd =
     map (\<lambda>d. \<lparr>requested_floor = d0_start_floor d,
               destination_floor = d1_end_floor d,
               count = d4_count d\<rparr>) dd"

definition elapsed_of :: "demand_row \<Rightarrow> py_error + elapsed_entry" where
  "elapsed_of d =
     (case sub_datetime (d3_departure_time d) (d2_arrival_time d) of
        Inl e \<Rightarrow> Inl e
      | Inr t \<Rightarrow> Inr \<lparr>ee_start_floor = d0_start_floor d,
                     ee_end_floor = d1_end_floor d,
                     ee_elevator_id = d5_elevator_id d,
                     elapsed_time_secs = t\<rparr>)"

text \<open>\<open>get_ml_data\<close>, lines 164 to 196.\<close>

definition get_ml_data :: "(movement list \<Rightarrow> movement) \<Rightarrow> database \<Rightarrow> py_error + ml_data" where
  "get_ml_data pick db =
     (let dd = demand_data pick db
      in case comprehension elapsed_of dd of
           Inl e \<Rightarrow> Inl e
         | Inr el \<Rightarrow> Inr \<lparr>training_data = formatted_demand_data dd, elapsed_data = el\<rparr>)"

section \<open>The session dependency\<close>

text \<open>
  Sessions are handles; the world records which of them are open, next to the stored
  tables. \<open>SessionLocal()\<close> opens a fresh one, \<open>db.close()\<close> closes one.
\<close>

type_synonym session = nat

record world =
  store :: database
  next_session :: session
  open_sessions :: "session list"

definition SessionLocal :: "world \<Rightarrow> session \<times> world" where
  "SessionLocal w =
     (next_session w,
      w\<lparr>next_session := Suc (next_session w),
        open_sessions := next_session w # open_sessions w\<rparr>)"

definition close :: "session \<Rightarrow> world \<Rightarrow> world" where
  "close db w = w\<lparr>open_sessions := removeAll db (open_sessions w)\<rparr>"

text \<open>
  \<open>get_db\<close>, lines 63 to 74, as the request runs it through \<open>Depends(get_db)\<close>: the
  generator runs to its \<open>yield\<close>, the handler body runs with the yielded session, and the
  generator is resumed. When the body returned, the generator resumes after the
  \<open>yield\<close>; when the body raised, the exception is thrown in at the \<open>yield\<close>. The
  \<open>finally\<close> block runs on both paths, and the exception goes on to the caller.
\<close>

definition depends_get_db ::
  "(session \<Rightarrow> world \<Rightarrow> ('e + 'a) \<times> world) \<Rightarrow> world \<Rightarrow> ('e + 'a) \<times> world" where
  "depends_get_db handler w =
     (let (db, w1) = SessionLocal w
      in case handler db w1 of
           (Inr v, w2) \<Rightarrow> (Inr v, close db w2)
         | (Inl e, w2) \<Rightarrow> (Inl e, close db w2))"

text \<open>\<open>log_movement\<close> as a handler body on the world: it only touches the store.\<close>

definition log_movement_handler ::
  "movement_create \<Rightarrow> clock \<Rightarrow> session \<Rightarrow> world \<Rightarrow> (py_error + movement) \<times> world" where
  "log_movement_handler m clk db w =
     (let (res, s) = log_movement m clk (store w) in (res, w\<lparr>store := s\<rparr>))"

section \<open>A scenario\<close>

text \<open>
  Elevator 1 is registered, then two movements are logged for it with no
  \<open>departure_time\<close>: from floor 1 to 5, and from floor 5 to 2 a minute later.
  The process runs five hours behind the clock of the database.
\<close>

definition first_call :: movement_create where
  "first_call = \<lparr>mc_elevator_id = 1, mc_start_floor = 1, mc_end_floor = 5,
                  mc_departure_time = None\<rparr>"

definition second_call :: movement_create where
  "second_call = \<lparr>mc_elevator_id = 1, mc_start_floor = 5, mc_end_floor = 2,
                   mc_departure_time = None\<rparr>"

definition first_clock :: clock where
  "first_clock = \<lparr>py_now = 1000, db_now = 19000\<rparr>"

definition second_clock :: clock where
  "second_clock = \<lparr>py_now = 1060, db_now = 19060\<rparr>"

definition db_registered :: database where
  "db_registered =
     snd (create_elevator \<lparr>ec_name = ''A'', ec_location = ''Lobby''\<rparr> empty_database)"

definition db_first :: database where
  "db_first = snd (log_movement first_call first_clock db_registered)"

definition db_second :: database where
  "db_second = snd (log_movement second_call second_clock db_first)"

definition row_x :: movement where
  "row_x = \<lparr>mv_id = 1, elevator_id = 1, start_floor = 1, end_floor = 5,
            arrival_time = 19000, departure_time = None\<rparr>"

definition row_y :: movement where
  "row_y = \<lparr>mv_id = 2, elevator_id = 1, start_floor = 5, end_floor = 2,
            arrival_time = 19060, departure_time = None\<rparr>"

text \<open>
  A table for the report: three closed rows, two of them from floor 1 to floor 5 with
  elapsed times 30 and 70, and one open row.
\<close>

definition db_report :: database where
  "db_report = \<lparr>elevators = [],
     movements =
       [\<lparr>mv_id = 1, elevator_id = 1, start_floor = 1, end_floor = 5,
         arrival_time = 100, departure_time = Some 130\<rparr>,
        \<lparr>mv_id = 2, elevator_id = 2, start_floor = 0, end_floor = 3,
         arrival_time = 110, departure_time = Some 150\<rparr>,
        \<lparr>mv_id = 3, elevator_id = 3, start_floor = 1, end_floor = 5,
         arrival_time = 120, departure_time = Some 190\<rparr>,
        \<lparr>mv_id = 4, elevator_id = 1, start_floor = 1, end_floor = 5,
         arrival_time = 200, departure_time = None\<rparr>]\<rparr>"

text \<open>
  A table in which the invariant is already broken: both rows of elevator 1 are open.
  A third movement is logged for that elevator, this time with a \<open>departure_time\<close>.
\<close>

definition third_call :: movement_create where
  "third_call = \<lparr>mc_elevator_id = 1, mc_start_floor = 2, mc_end_floor = 7,
                  mc_departure_time = Some 1500\<rparr>"

definition db_two_open :: database where
  "db_two_open = \<lparr>elevators = [], movements = [row_x, row_y]\<rparr>"

text \<open>
  Requests with an integer just outside the 64-bit range: a floor, the other floor, and
  the \<open>elevator_id\<close>. The pydantic schema takes them: its fields are plain \<open>int\<close>.
\<close>

definition high_start_call :: movement_create where
  "high_start_call = \<lparr>mc_elevator_id = 1, mc_start_floor = 2 ^ 63, mc_end_floor = 2,
                       mc_departure_time = None\<rparr>"

definition high_end_call :: movement_create where
  "high_end_call = \<lparr>mc_elevator_id = 1, mc_start_floor = 5, mc_end_floor = 2 ^ 63,
                     mc_departure_time = None\<rparr>"

definition high_elevator_call :: movement_create where
  "high_elevator_call = \<lparr>mc_elevator_id = 2 ^ 63, mc_start_floor = 1, mc_end_floor = 5,
                          mc_departure_time = None\<rparr>"


definition get_movements_1 :: movements_request where
  "get_movements_1 = \<lparr>path_elevator_id = ''1'', query_eid = None\<rparr>"

text \<open>
  A world in which session 4 is open, and a handler body that raises at once.
\<close>

definition world0 :: world where
  "world0 = \<lparr>store = db_first, next_session = 7, open_sessions = [4]\<rparr>"

definition raising_handler :: "session \<Rightarrow> world \<Rightarrow> (string + movement) \<times> world" where
  "raising_handler db w = (Inl ''storage failure'', w)"

section \<open>Facts about the movement log\<close>

lemma set_departure_length: "length (set_departure i t rows) = length rows"
  by (simp add: set_departure_def)

lemma set_departure_ids: "map mv_id (set_departure i t rows) = map mv_id rows"
  by (simp add: set_departure_def)

lemma fold_max_ge: "(a::int) \<le> fold max xs a"
  by (induction xs arbitrary: a) (auto intro: order_trans [OF max.cobounded2])

lemma fold_max_upper: "x \<in> set xs \<Longrightarrow> (x::int) \<le> fold max xs a"
proof (induction xs arbitrary: a)
  case Nil
  then show ?case by simp
next
  case (Cons y ys)
  show ?case
  proof (cases "x = y")
    case True
    have "y \<le> max y a" by simp
    also have "\<dots> \<le> fold max ys (max y a)" by (rule fold_max_ge)
    finally show ?thesis using True by simp
  next
    case False
    with Cons.prems have "x \<in> set ys" by simp
    then show ?thesis using Cons.IH by simp
  qed
qed

lemma next_rowid_above: "x \<in> set ids \<Longrightarrow> x < next_rowid ids"
proof (cases ids)
  case Nil
  assume "x \<in> set ids"
  with Nil show ?thesis by simp
next
  case (Cons i rest)
  assume "x \<in> set ids"
  with Cons have "x = i \<or> x \<in> set rest" by simp
  then have "x \<le> fold max rest i"
    using fold_max_ge [of i rest] fold_max_upper [of x rest i] by auto
  then show ?thesis using Cons by (simp add: next_rowid_def)
qed

lemma next_rowid_fresh: "next_rowid ids \<notin> set ids"
  using next_rowid_above [of "next_rowid ids" ids] by auto

lemma find_first_index:
  "find P xs = Some x \<Longrightarrow> \<exists>i<length xs. xs ! i = x \<and> P x \<and> (\<forall>j<i. \<not> P (xs ! j))"
  by (auto simp: find_Some_iff)

lemma set_departure_nth:
  "j < length rows \<Longrightarrow>
   set_departure i t rows ! j =
     (if mv_id (rows ! j) = i then (rows ! j)\<lparr>departure_time := Some t\<rparr> else rows ! j)"
  by (simp add: set_departure_def)

lemma new_movement_after_close:
  "new_movement m t (set_departure i u rows) = new_movement m t rows"
  by (simp add: new_movement_def set_departure_ids)

lemma log_movement_result:
  "fst (log_movement m clk db) =
     (if fits_sqlite m then Inr (new_movement m (db_now clk) (movements db))
      else Inl OverflowError)"
  by (simp add: log_movement_def fits_sqlite_def Let_def new_movement_after_close
      split: option.split)

lemma log_movement_rows:
  "movements (snd (log_movement m clk db)) =
     (if sqlite_int (mc_elevator_id m) then
        (case find (open_for (mc_elevator_id m)) (movements db) of
           None \<Rightarrow> movements db
         | Some x \<Rightarrow> set_departure (mv_id x) (py_now clk) (movements db)) @
        (if sqlite_int (mc_start_floor m) \<and> sqlite_int (mc_end_floor m)
         then [new_movement m (db_now clk) (movements db)] else [])
      else movements db)"
  by (simp add: log_movement_def Let_def new_movement_after_close split: option.split)

lemma log_movement_elevators: "elevators (snd (log_movement m clk db)) = elevators db"
  by (simp add: log_movement_def Let_def)

lemma log_movement_returns:
  assumes "fits_sqlite m"
  shows "fst (log_movement m clk db) = Inr (new_movement m (db_now clk) (movements db))"
    and "movements (snd (log_movement m clk db)) =
           (case find (open_for (mc_elevator_id m)) (movements db) of
              None \<Rightarrow> movements db
            | Some x \<Rightarrow> set_departure (mv_id x) (py_now clk) (movements db)) @
           [new_movement m (db_now clk) (movements db)]"
  using assms by (simp_all add: log_movement_result log_movement_rows fits_sqlite_def)

lemma log_movement_length:
  assumes "fits_sqlite m"
  shows "length (movements (snd (log_movement m clk db))) = Suc (length (movements db))"
  by (simp add: log_movement_returns [OF assms] set_departure_length split: option.split)

lemma log_movement_last:
  assumes "fits_sqlite m"
  shows "movements (snd (log_movement m clk db)) ! length (movements db) =
           new_movement m (db_now clk) (movements db)"
  by (simp add: log_movement_returns [OF assms] set_departure_length nth_append
      split: option.split)

lemma new_movement_fresh_id: "mv_id (new_movement m t rows) \<notin> mv_id ` set rows"
  using next_rowid_fresh [of "map mv_id rows"] by (simp add: new_movement_def)

lemma log_movement_no_open:
  assumes "fits_sqlite m"
    and "\<not> (\<exists>x \<in> set (movements db). open_for (mc_elevator_id m) x)"
  shows "movements (snd (log_movement m clk db)) =
           movements db @ [new_movement m (db_now clk) (movements db)]"
proof -
  from assms(2) have "find (open_for (mc_elevator_id m)) (movements db) = None"
    by (simp add: find_None_iff)
  then show ?thesis by (simp add: log_movement_returns [OF assms(1)])
qed

lemma log_movement_old_nth:
  assumes "j < length (movements db)"
  shows "movements (snd (log_movement m clk db)) ! j =
     (if sqlite_int (mc_elevator_id m) then
        (case find (open_for (mc_elevator_id m)) (movements db) of
           None \<Rightarrow> movements db ! j
         | Some x \<Rightarrow> if mv_id (movements db ! j) = mv_id x
                     then (movements db ! j)\<lparr>departure_time := Some (py_now clk)\<rparr>
                     else movements db ! j)
      else movements db ! j)"
  using assms
  by (simp add: log_movement_rows nth_append set_departure_length set_departure_nth
      split: option.split)

lemma log_movement_closes_first:
  assumes "\<exists>x \<in> set (movements db). open_for e x" and "e = mc_elevator_id m"
    and "sqlite_int e"
  shows "\<exists>i<length (movements db). open_for e (movements db ! i) \<and>
            (\<forall>j<i. \<not> open_for e (movements db ! j)) \<and>
            movements (snd (log_movement m clk db)) ! i =
              (movements db ! i)\<lparr>departure_time := Some (py_now clk)\<rparr>"
proof -
  from assms(1) obtain x where fx: "find (open_for e) (movements db) = Some x"
    by (cases "find (open_for e) (movements db)") (auto simp: find_None_iff)
  from find_first_index [OF fx] obtain i where
    i: "i < length (movements db)" "movements db ! i = x" "open_for e x"
       "\<forall>j<i. \<not> open_for e (movements db ! j)"
    by blast
  have "movements (snd (log_movement m clk db)) ! i =
          (movements db ! i)\<lparr>departure_time := Some (py_now clk)\<rparr>"
    using fx i(1,2) assms(2,3) by (simp add: log_movement_old_nth)
  with i show ?thesis by blast
qed

text \<open>
  C1, for requests whose integers fit the 64-bit INTEGER of SQLite. Such a call of
  \<open>log_movement\<close> returns the new row: a fresh id, the fields of the request, the
  \<open>departure_time\<close> of the request (null when omitted) and the database's time of
  insertion as \<open>arrival_time\<close>. The table grows by exactly that row, at its end. When the
  table has a row of that elevator with a null \<open>departure_time\<close>, the first such row has
  its \<open>departure_time\<close> set to the time read by the process; when it has none, the old
  rows are left as they were and the table is the old one followed by the new row.
\<close>

theorem log_movement_closes_then_inserts:
  assumes "fits_sqlite m"
  shows
  "let e = mc_elevator_id m;
       rows = movements db;
       row = \<lparr>mv_id = next_rowid (map mv_id rows),
              elevator_id = e,
              start_floor = mc_start_floor m,
              end_floor = mc_end_floor m,
              arrival_time = db_now clk,
              departure_time = mc_departure_time m\<rparr>;
       rows' = movements (snd (log_movement m clk db))
   in fst (log_movement m clk db) = Inr row \<and>
      length rows' = Suc (length rows) \<and>
      rows' ! length rows = row \<and>
      mv_id row \<notin> mv_id ` set rows \<and>
      ((\<exists>x \<in> set rows. open_for e x) \<longrightarrow>
         (\<exists>i<length rows. open_for e (rows ! i) \<and>
            (\<forall>j<i. \<not> open_for e (rows ! j)) \<and>
            rows' ! i = (rows ! i)\<lparr>departure_time := Some (py_now clk)\<rparr>)) \<and>
      (\<not> (\<exists>x \<in> set rows. open_for e x) \<longrightarrow> rows' = rows @ [row])"
proof -
  let ?row = "new_movement m (db_now clk) (movements db)"
  have row: "\<lparr>mv_id = next_rowid (map mv_id (movements db)),
              elevator_id = mc_elevator_id m,
              start_floor = mc_start_floor m,
              end_floor = mc_end_floor m,
              arrival_time = db_now clk,
              departure_time = mc_departure_time m\<rparr> = ?row"
    by (simp add: new_movement_def)
  have "fst (log_movement m clk db) = Inr ?row"
    by (rule log_movement_returns [OF assms])
  moreover have "length (movements (snd (log_movement m clk db))) = Suc (length (movements db))"
    by (rule log_movement_length [OF assms])
  moreover have "movements (snd (log_movement m clk db)) ! length (movements db) = ?row"
    by (rule log_movement_last [OF assms])
  moreover have "mv_id ?row \<notin> mv_id ` set (movements db)"
    by (rule new_movement_fresh_id)
  moreover have "(\<exists>x \<in> set (movements db). open_for (mc_elevator_id m) x) \<longrightarrow>
      (\<exists>i<length (movements db). open_for (mc_elevator_id m) (movements db ! i) \<and>
            (\<forall>j<i. \<not> open_for (mc_elevator_id m) (movements db ! j)) \<and>
            movements (snd (log_movement m clk db)) ! i =
              (movements db ! i)\<lparr>departure_time := Some (py_now clk)\<rparr>)"
    using log_movement_closes_first [of db "mc_elevator_id m" m clk] assms
    by (simp add: fits_sqlite_def)
  moreover have "\<not> (\<exists>x \<in> set (movements db). open_for (mc_elevator_id m) x) \<longrightarrow>
      movements (snd (log_movement m clk db)) = movements db @ [?row]"
    using log_movement_no_open [OF assms] by blast
  ultimately show ?thesis
    unfolding Let_def row by blast
qed

subsection \<open>The scenario, evaluated\<close>

lemma sqlite_int_small [simp]:
  "sqlite_int 1" "sqlite_int 2" "sqlite_int 5" "sqlite_int 7"
  "\<not> sqlite_int (2 ^ 63)" "\<not> sqlite_int 9223372036854775808"
  by (simp_all add: sqlite_int_def)

lemma db_registered_eq:
  "db_registered = \<lparr>elevators = [\<lparr>el_id = 1, el_name = ''A'', el_location = ''Lobby''\<rparr>],
                    movements = []\<rparr>"
  by (simp add: db_registered_def empty_database_def create_elevator_def next_rowid_def Let_def)

lemma db_first_eq: "db_first = db_registered\<lparr>movements := [row_x]\<rparr>"
  by (simp add: db_first_def db_registered_eq first_call_def first_clock_def row_x_def log_movement_def new_movement_def set_departure_def open_for_def
      next_rowid_def Let_def)

lemma log_first: "log_movement first_call first_clock db_registered = (Inr row_x, db_first)"
  by (simp add: db_first_eq db_registered_eq first_call_def first_clock_def row_x_def log_movement_def new_movement_def set_departure_def open_for_def
      next_rowid_def Let_def)

lemma log_second:
  "log_movement second_call second_clock db_first =
     (Inr row_y, db_registered\<lparr>movements := [row_x\<lparr>departure_time := Some 1060\<rparr>, row_y]\<rparr>)"
  by (simp add: db_first_eq db_registered_eq second_call_def second_clock_def row_x_def
      row_y_def log_movement_def new_movement_def set_departure_def open_for_def
      next_rowid_def Let_def)

lemma db_second_eq:
  "db_second = db_registered\<lparr>movements := [row_x\<lparr>departure_time := Some 1060\<rparr>, row_y]\<rparr>"
  by (simp add: db_second_def log_second)

lemma scenario_tables:
  "movements db_registered = []"
  "movements db_first = [row_x]"
  "movements db_second = [row_x\<lparr>departure_time := Some 1060\<rparr>, row_y]"
  by (simp_all add: db_registered_eq db_first_eq db_second_eq)

lemma scenario_elevator:
  "mc_elevator_id first_call = 1"
  "mc_elevator_id second_call = 1"
  "mc_departure_time second_call = None"
  "py_now second_clock = 1060"
  by (simp_all add: first_call_def second_call_def second_clock_def)

lemma scenario_fits: "fits_sqlite first_call" "fits_sqlite second_call" "fits_sqlite third_call"
  by (simp_all add: fits_sqlite_def first_call_def second_call_def third_call_def)

lemma row_x_open: "open_for 1 row_x"
  by (simp add: open_for_def row_x_def)

lemma log_high_start:
  "log_movement high_start_call second_clock db_first =
     (Inl OverflowError, db_registered\<lparr>movements := [row_x\<lparr>departure_time := Some 1060\<rparr>]\<rparr>)"
  by (simp add: db_first_eq db_registered_eq high_start_call_def second_clock_def row_x_def
      log_movement_def set_departure_def open_for_def Let_def)

lemma log_high_end:
  "log_movement high_end_call second_clock db_first =
     (Inl OverflowError, db_registered\<lparr>movements := [row_x\<lparr>departure_time := Some 1060\<rparr>]\<rparr>)"
  by (simp add: db_first_eq db_registered_eq high_end_call_def second_clock_def row_x_def
      log_movement_def set_departure_def open_for_def Let_def)

lemma log_high_elevator:
  "log_movement high_elevator_call first_clock empty_database = (Inl OverflowError, empty_database)"
  by (simp add: high_elevator_call_def log_movement_def)

lemma high_calls:
  "mc_elevator_id high_start_call = 1" "mc_departure_time high_start_call = None"
  "mc_elevator_id high_end_call = 1" "mc_departure_time high_end_call = None"
  "mc_elevator_id high_elevator_call = 2 ^ 63"
  "\<not> fits_sqlite high_start_call" "\<not> fits_sqlite high_end_call"
  "\<not> fits_sqlite high_elevator_call"
  by (simp_all add: high_start_call_def high_end_call_def high_elevator_call_def
      fits_sqlite_def)

theorem log_movement_closes_then_inserts_witness:
  "fits_sqlite second_call \<and>
   (\<exists>x \<in> set (movements db_first). open_for (mc_elevator_id second_call) x) \<and>
   fst (log_movement second_call second_clock db_first) = Inr row_y \<and>
   movements (snd (log_movement second_call second_clock db_first)) =
     [row_x\<lparr>departure_time := Some 1060\<rparr>, row_y] \<and>
   fits_sqlite first_call \<and>
   \<not> (\<exists>x \<in> set (movements db_registered). open_for (mc_elevator_id first_call) x) \<and>
   fst (log_movement first_call first_clock db_registered) = Inr row_x \<and>
   movements (snd (log_movement first_call first_clock db_registered)) = [row_x]"
  using log_movement_closes_then_inserts
          [OF scenario_fits(2), where db = db_first and clk = second_clock]
        log_movement_closes_then_inserts
          [OF scenario_fits(1), where db = db_registered and clk = first_clock]
  by (simp add: log_second log_first scenario_tables scenario_elevator row_x_open scenario_fits)

text \<open>
  The call with \<open>start_floor\<close> \<open>2 ^ 63\<close> on the table with the open row of elevator 1: the
  open row is closed, the INSERT raises, and no row is inserted or returned.
\<close>

theorem log_movement_overflow_after_close:
  "(\<exists>x \<in> set (movements db_first). open_for (mc_elevator_id high_start_call) x) \<and>
   fst (log_movement high_start_call second_clock db_first) = Inl OverflowError \<and>
   movements (snd (log_movement high_start_call second_clock db_first)) =
     [row_x\<lparr>departure_time := Some 1060\<rparr>] \<and>
   length (movements (snd (log_movement high_start_call second_clock db_first))) =
     length (movements db_first)"
  by (simp add: log_high_start scenario_tables row_x_open high_calls)

subsection \<open>The invariant of open rows\<close>

lemma one_open_per_elevator_iff:
  "one_open_per_elevator rows \<longleftrightarrow> (\<forall>e. length (filter (open_for e) rows) \<le> 1)"
proof
  assume inv: "one_open_per_elevator rows"
  show "\<forall>e. length (filter (open_for e) rows) \<le> 1"
  proof
    fix e
    show "length (filter (open_for e) rows) \<le> 1"
    proof (cases "e \<in> elevator_id ` set rows")
      case True
      with inv show ?thesis by (auto simp: one_open_per_elevator_def list_all_iff)
    next
      case False
      then have "filter (open_for e) rows = []"
        by (auto simp: filter_empty_conv open_for_def)
      then show ?thesis by simp
    qed
  qed
next
  assume "\<forall>e. length (filter (open_for e) rows) \<le> 1"
  then show "one_open_per_elevator rows"
    by (simp add: one_open_per_elevator_def list_all_iff)
qed

lemma filter_open_set_departure:
  "filter (open_for e) (set_departure i t rows) =
   filter (\<lambda>r. mv_id r \<noteq> i) (filter (open_for e) rows)"
  by (induction rows) (auto simp: set_departure_def open_for_def)

lemma find_sole_open:
  assumes "find P rows = Some x" and "length (filter P rows) \<le> 1"
  shows "filter P rows = [x]"
proof -
  from assms(1) have mem: "x \<in> set (filter P rows)"
    by (auto simp: find_Some_iff)
  show ?thesis
  proof (cases "filter P rows")
    case Nil
    with mem show ?thesis by simp
  next
    case (Cons y ys)
    with assms(2) have "ys = []" by simp
    with Cons mem show ?thesis by simp
  qed
qed

lemma open_after_close:
  assumes "find (open_for e) rows = Some x" and "length (filter (open_for e) rows) \<le> 1"
  shows "filter (open_for e) (set_departure (mv_id x) t rows) = []"
  using find_sole_open [OF assms] by (simp add: filter_open_set_departure)

lemma open_count_after_close:
  "length (filter (open_for e) (set_departure i t rows)) \<le> length (filter (open_for e) rows)"
  unfolding filter_open_set_departure by (rule length_filter_le)

lemma find_None_filter: "find P rows = None \<Longrightarrow> filter P rows = []"
  by (auto simp: find_None_iff filter_empty_conv)

lemma open_for_new_movement:
  "open_for e (new_movement m t rows) \<longleftrightarrow> e = mc_elevator_id m \<and> mc_departure_time m = None"
  by (auto simp: open_for_def new_movement_def)

lemma log_movement_open_same_elevator:
  assumes "length (filter (open_for (mc_elevator_id m)) (movements db)) \<le> 1"
    and "sqlite_int (mc_elevator_id m)"
  shows "filter (open_for (mc_elevator_id m)) (movements (snd (log_movement m clk db))) =
           (if sqlite_int (mc_start_floor m) \<and> sqlite_int (mc_end_floor m) \<and>
               mc_departure_time m = None
            then [new_movement m (db_now clk) (movements db)] else [])"
proof (cases "find (open_for (mc_elevator_id m)) (movements db)")
  case None
  then show ?thesis
    using assms(2) by (simp add: log_movement_rows find_None_filter open_for_new_movement)
next
  case (Some x)
  then show ?thesis
    using open_after_close [OF Some assms(1)] assms(2)
    by (simp add: log_movement_rows open_for_new_movement)
qed

lemma log_movement_open_other_elevator:
  assumes "e \<noteq> mc_elevator_id m"
  shows "length (filter (open_for e) (movements (snd (log_movement m clk db))))
           \<le> length (filter (open_for e) (movements db))"
  using assms
  by (simp add: log_movement_rows open_count_after_close open_for_new_movement
      split: option.split)

lemma log_movement_open_count:
  assumes "\<And>e. length (filter (open_for e) (movements db)) \<le> 1"
  shows "length (filter (open_for e) (movements (snd (log_movement m clk db)))) \<le> 1"
proof (cases "e = mc_elevator_id m")
  case False
  from log_movement_open_other_elevator [OF False] assms [of e] show ?thesis
    by (rule order_trans)
next
  case True
  show ?thesis
  proof (cases "sqlite_int (mc_elevator_id m)")
    case in_range: True
    from log_movement_open_same_elevator [OF assms in_range] True show ?thesis by simp
  next
    case False
    then have "movements (snd (log_movement m clk db)) = movements db"
      by (simp add: log_movement_rows)
    with assms [of e] show ?thesis by simp
  qed
qed

text \<open>
  C2, as the code has it. Every call of \<open>log_movement\<close>, also one that raises, preserves
  the invariant that each elevator has at most one movement row with a null
  \<open>departure_time\<close>. When the invariant holds before the call, the integers of the request
  fit the 64-bit INTEGER of SQLite and the request omits \<open>departure_time\<close>, the call
  returns the inserted row, and that row is afterwards the only open row of its elevator,
  whether or not an open row existed before.
\<close>

theorem log_movement_keeps_one_open:
  assumes "one_open_per_elevator (movements db)"
  shows "one_open_per_elevator (movements (snd (log_movement m clk db))) \<and>
         (fits_sqlite m \<and> mc_departure_time m = None \<longrightarrow>
            (\<exists>row. fst (log_movement m clk db) = Inr row \<and>
               filter (open_for (mc_elevator_id m)) (movements (snd (log_movement m clk db))) =
                 [row]))"
proof -
  from assms have inv: "\<And>e. length (filter (open_for e) (movements db)) \<le> 1"
    by (simp add: one_open_per_elevator_iff)
  have "\<And>e. length (filter (open_for e) (movements (snd (log_movement m clk db)))) \<le> 1"
    by (rule log_movement_open_count) (rule inv)
  then have after: "one_open_per_elevator (movements (snd (log_movement m clk db)))"
    by (simp add: one_open_per_elevator_iff)
  have "\<exists>row. fst (log_movement m clk db) = Inr row \<and>
          filter (open_for (mc_elevator_id m)) (movements (snd (log_movement m clk db))) = [row]"
    if fits: "fits_sqlite m" and omitted: "mc_departure_time m = None"
  proof -
    from fits have range: "sqlite_int (mc_elevator_id m)"
      "sqlite_int (mc_start_floor m)" "sqlite_int (mc_end_floor m)"
      by (simp_all add: fits_sqlite_def)
    from log_movement_open_same_elevator [OF inv range(1)] range(2,3) omitted
    have "filter (open_for (mc_elevator_id m)) (movements (snd (log_movement m clk db))) =
            [new_movement m (db_now clk) (movements db)]"
      by simp
    with log_movement_returns(1) [OF fits] show ?thesis by simp
  qed
  with after show ?thesis by blast
qed

lemma one_open_first: "one_open_per_elevator (movements db_first)"
  by (simp add: scenario_tables one_open_per_elevator_def row_x_def open_for_def)

theorem log_movement_keeps_one_open_witness:
  "one_open_per_elevator (movements db_first) \<and>
   one_open_per_elevator (movements db_second) \<and>
   fits_sqlite second_call \<and>
   mc_departure_time second_call = None \<and>
   fst (log_movement second_call second_clock db_first) = Inr row_y \<and>
   filter (open_for 1) (movements db_second) = [row_y]"
  using log_movement_keeps_one_open
          [where m = second_call and db = db_first and clk = second_clock]
  by (simp add: one_open_first log_second scenario_elevator scenario_fits db_second_def)

text \<open>
  The call with \<open>end_floor\<close> \<open>2 ^ 63\<close> and no \<open>departure_time\<close>, while elevator 1 has its open
  row and the invariant holds: the open row is closed, the INSERT raises, and elevator 1
  is left with no open row at all.
\<close>

theorem log_movement_overflow_leaves_no_open_row:
  "one_open_per_elevator (movements db_first) \<and>
   filter (open_for 1) (movements db_first) = [row_x] \<and>
   mc_elevator_id high_end_call = 1 \<and>
   mc_departure_time high_end_call = None \<and>
   fst (log_movement high_end_call second_clock db_first) = Inl OverflowError \<and>
   filter (open_for 1) (movements (snd (log_movement high_end_call second_clock db_first))) = []"
proof -
  have "filter (open_for 1) (movements db_first) = [row_x]"
    by (simp add: scenario_tables row_x_open)
  moreover have "filter (open_for 1)
      (movements (snd (log_movement high_end_call second_clock db_first))) = []"
    by (simp add: log_high_end open_for_def)
  ultimately show ?thesis
    by (simp add: one_open_first log_high_end high_calls)
qed

subsection \<open>Frame\<close>

lemma primary_key_log_movement:
  assumes "primary_key (movements db)"
  shows "primary_key (movements (snd (log_movement m clk db)))"
proof -
  have "map mv_id (movements (snd (log_movement m clk db))) = map mv_id (movements db) \<or>
        map mv_id (movements (snd (log_movement m clk db))) =
          map mv_id (movements db) @ [mv_id (new_movement m (db_now clk) (movements db))]"
    by (simp add: log_movement_rows set_departure_ids split: option.split)
  with assms new_movement_fresh_id [of m "db_now clk" "movements db"] show ?thesis
    by (auto simp: primary_key_def)
qed

lemma primary_key_empty: "primary_key (movements empty_database)"
  by (simp add: primary_key_def empty_database_def)

lemma log_movement_old_fields:
  assumes "j < length (movements db)"
  shows "mv_id (movements (snd (log_movement m clk db)) ! j) = mv_id (movements db ! j) \<and>
         elevator_id (movements (snd (log_movement m clk db)) ! j) = elevator_id (movements db ! j) \<and>
         start_floor (movements (snd (log_movement m clk db)) ! j) = start_floor (movements db ! j) \<and>
         end_floor (movements (snd (log_movement m clk db)) ! j) = end_floor (movements db ! j) \<and>
         arrival_time (movements (snd (log_movement m clk db)) ! j) = arrival_time (movements db ! j)"
  using assms by (simp add: log_movement_old_nth split: option.split)

lemma primary_key_nth:
  assumes "primary_key rows" and "j < length rows" and "k < length rows"
    and "mv_id (rows ! j) = mv_id (rows ! k)"
  shows "j = k"
proof -
  from assms(1) have "distinct (map mv_id rows)" by (simp add: primary_key_def)
  then have "(map mv_id rows ! j = map mv_id rows ! k) = (j = k)"
    by (rule nth_eq_iff_index_eq) (simp_all add: assms(2,3))
  with assms(2,3,4) show ?thesis by simp
qed

lemma log_movement_changed_row:
  assumes pk: "primary_key (movements db)" and j: "j < length (movements db)"
    and ch: "movements (snd (log_movement m clk db)) ! j \<noteq> movements db ! j"
  shows "find (open_for (mc_elevator_id m)) (movements db) = Some (movements db ! j) \<and>
         movements (snd (log_movement m clk db)) ! j =
           (movements db ! j)\<lparr>departure_time := Some (py_now clk)\<rparr>"
proof (cases "find (open_for (mc_elevator_id m)) (movements db)")
  case None
  with j ch show ?thesis by (simp add: log_movement_old_nth)
next
  case (Some x)
  from j ch have range: "sqlite_int (mc_elevator_id m)"
    by (simp add: log_movement_old_nth split: if_splits)
  from find_first_index [OF Some] obtain i where
    i: "i < length (movements db)" "movements db ! i = x" by blast
  from j ch Some range have same: "mv_id (movements db ! j) = mv_id x"
    by (simp add: log_movement_old_nth split: if_splits)
  with i have "mv_id (movements db ! j) = mv_id (movements db ! i)" by simp
  with pk j i(1) have "j = i" by (rule primary_key_nth)
  with i(2) have "movements db ! j = x" by simp
  with j Some range show ?thesis by (simp add: log_movement_old_nth)
qed

text \<open>
  C10. The frame of \<open>log_movement\<close> on a table with a primary key. Every row that was in
  the table keeps its id, \<open>elevator_id\<close>, floors and \<open>arrival_time\<close>. A row that differs
  after the call is the row the query matched, and differs only in its \<open>departure_time\<close>,
  now the time read by the process. At most one position of the old table differs, however
  many open rows the elevator had.
\<close>

theorem log_movement_frame:
  assumes "primary_key (movements db)"
  shows "let rows = movements db; rows' = movements (snd (log_movement m clk db)) in
    (\<forall>j<length rows.
        mv_id (rows' ! j) = mv_id (rows ! j) \<and>
        elevator_id (rows' ! j) = elevator_id (rows ! j) \<and>
        start_floor (rows' ! j) = start_floor (rows ! j) \<and>
        end_floor (rows' ! j) = end_floor (rows ! j) \<and>
        arrival_time (rows' ! j) = arrival_time (rows ! j)) \<and>
    (\<forall>j<length rows. rows' ! j \<noteq> rows ! j \<longrightarrow>
        find (open_for (mc_elevator_id m)) rows = Some (rows ! j) \<and>
        rows' ! j = (rows ! j)\<lparr>departure_time := Some (py_now clk)\<rparr>) \<and>
    (\<forall>j<length rows. \<forall>k<length rows.
        rows' ! j \<noteq> rows ! j \<longrightarrow> rows' ! k \<noteq> rows ! k \<longrightarrow> j = k)"
proof -
  let ?rows = "movements db" and ?rows' = "movements (snd (log_movement m clk db))"
  have fields: "\<forall>j<length ?rows.
        mv_id (?rows' ! j) = mv_id (?rows ! j) \<and>
        elevator_id (?rows' ! j) = elevator_id (?rows ! j) \<and>
        start_floor (?rows' ! j) = start_floor (?rows ! j) \<and>
        end_floor (?rows' ! j) = end_floor (?rows ! j) \<and>
        arrival_time (?rows' ! j) = arrival_time (?rows ! j)"
    using log_movement_old_fields by blast
  have changed: "\<forall>j<length ?rows. ?rows' ! j \<noteq> ?rows ! j \<longrightarrow>
        find (open_for (mc_elevator_id m)) ?rows = Some (?rows ! j) \<and>
        ?rows' ! j = (?rows ! j)\<lparr>departure_time := Some (py_now clk)\<rparr>"
    using log_movement_changed_row [OF assms] by blast
  have one: "j = k"
    if "j < length ?rows" "k < length ?rows" "?rows' ! j \<noteq> ?rows ! j" "?rows' ! k \<noteq> ?rows ! k"
    for j k
  proof -
    from changed that(1,3) have "find (open_for (mc_elevator_id m)) ?rows = Some (?rows ! j)"
      by blast
    moreover from changed that(2,4)
    have "find (open_for (mc_elevator_id m)) ?rows = Some (?rows ! k)"
      by blast
    ultimately have "?rows ! j = ?rows ! k" by simp
    then have "mv_id (?rows ! j) = mv_id (?rows ! k)" by simp
    with assms that(1,2) show ?thesis by (rule primary_key_nth)
  qed
  from fields changed one show ?thesis unfolding Let_def by blast
qed

lemma log_third:
  "movements (snd (log_movement third_call second_clock db_two_open)) =
     [row_x\<lparr>departure_time := Some 1060\<rparr>, row_y,
      \<lparr>mv_id = 3, elevator_id = 1, start_floor = 2, end_floor = 7,
       arrival_time = 19060, departure_time = Some 1500\<rparr>]"
  by (simp add: db_two_open_def third_call_def second_clock_def row_x_def row_y_def
      log_movement_def new_movement_def set_departure_def open_for_def next_rowid_def Let_def)

theorem log_movement_frame_witness:
  "primary_key (movements db_two_open) \<and>
   filter (open_for (mc_elevator_id third_call)) (movements db_two_open) = [row_x, row_y] \<and>
   take 2 (movements (snd (log_movement third_call second_clock db_two_open))) =
     [row_x\<lparr>departure_time := Some 1060\<rparr>, row_y]"
  using log_movement_frame [where m = third_call and db = db_two_open and clk = second_clock]
  by (simp add: log_third) (simp add: db_two_open_def primary_key_def row_x_def row_y_def
      open_for_def third_call_def)

subsection \<open>Clocks and references\<close>

lemma find_first_scenario:
  "find (open_for (mc_elevator_id second_call)) (movements db_first) = Some row_x"
  by (simp add: scenario_tables scenario_elevator row_x_open)

text \<open>
  C3 fails on the code. In the scenario the first row is inserted with the database's
  time 19000 as \<open>arrival_time\<close>; a minute later the second call closes it with the
  process's time 1060 as \<open>departure_time\<close>. The closed row departs before it arrives.
\<close>

theorem log_movement_departure_before_arrival:
  "find (open_for (mc_elevator_id second_call)) (movements db_first) = Some row_x \<and>
   movements db_second ! 0 = row_x\<lparr>departure_time := Some 1060\<rparr> \<and>
   arrival_time row_x = 19000 \<and>
   \<not> departs_after_arrival (movements db_second ! 0)"
proof -
  have "\<not> departs_after_arrival (row_x\<lparr>departure_time := Some 1060\<rparr>)"
    by (simp add: departs_after_arrival_def row_x_def)
  moreover have "arrival_time row_x = 19000"
    by (simp add: row_x_def)
  moreover have "movements db_second ! 0 = row_x\<lparr>departure_time := Some 1060\<rparr>"
    by (simp add: scenario_tables)
  ultimately show ?thesis
    by (simp add: find_first_scenario)
qed

lemma log_movement_any_elevators:
  "log_movement m clk (db\<lparr>elevators := es\<rparr>) =
     (fst (log_movement m clk db), (snd (log_movement m clk db))\<lparr>elevators := es\<rparr>)"
  by (cases "find (open_for (mc_elevator_id m)) (movements db)")
     (simp_all add: log_movement_def Let_def)

lemma new_movement_in_table:
  assumes "fits_sqlite m"
  shows "new_movement m (db_now clk) (movements db) \<in> set (movements (snd (log_movement m clk db)))"
  by (simp add: log_movement_returns(2) [OF assms])

text \<open>
  C8, for requests whose integers fit the 64-bit INTEGER of SQLite. Such a movement for an
  \<open>elevator_id\<close> that no row of \<open>elevators\<close> carries is logged like any other: the row with
  the request's fields is inserted and returned, the \<open>elevators\<close> table is not touched,
  and the outcome is the same whatever the \<open>elevators\<close> table holds, so also when it holds
  that elevator.
\<close>

theorem log_movement_unknown_elevator:
  assumes "mc_elevator_id m \<notin> el_id ` set (elevators db)" and "fits_sqlite m"
  shows "\<exists>row. fst (log_movement m clk db) = Inr row \<and>
           elevator_id row = mc_elevator_id m \<and>
           start_floor row = mc_start_floor m \<and>
           end_floor row = mc_end_floor m \<and>
           departure_time row = mc_departure_time m \<and>
           row \<in> set (movements (snd (log_movement m clk db))) \<and>
           elevators (snd (log_movement m clk db)) = elevators db \<and>
           (\<forall>es. log_movement m clk (db\<lparr>elevators := es\<rparr>) =
                   (Inr row, (snd (log_movement m clk db))\<lparr>elevators := es\<rparr>))"
proof -
  let ?row = "new_movement m (db_now clk) (movements db)"
  have res: "fst (log_movement m clk db) = Inr ?row"
    by (rule log_movement_returns(1) [OF assms(2)])
  have "\<forall>es. log_movement m clk (db\<lparr>elevators := es\<rparr>) =
                   (Inr ?row, (snd (log_movement m clk db))\<lparr>elevators := es\<rparr>)"
    using res by (simp add: log_movement_any_elevators)
  moreover have "?row \<in> set (movements (snd (log_movement m clk db)))"
    by (rule new_movement_in_table [OF assms(2)])
  moreover have "elevator_id ?row = mc_elevator_id m" "start_floor ?row = mc_start_floor m"
    "end_floor ?row = mc_end_floor m" "departure_time ?row = mc_departure_time m"
    by (simp_all add: new_movement_def)
  ultimately show ?thesis
    using res log_movement_elevators [of m clk db] by blast
qed

lemma log_unregistered:
  "log_movement first_call first_clock empty_database =
     (Inr row_x, \<lparr>elevators = [], movements = [row_x]\<rparr>)"
  by (simp add: empty_database_def first_call_def first_clock_def row_x_def
      log_movement_def new_movement_def next_rowid_def Let_def)


theorem log_movement_unknown_elevator_witness:
  "mc_elevator_id first_call \<notin> el_id ` set (elevators empty_database) \<and>
   fits_sqlite first_call \<and>
   log_movement first_call first_clock empty_database =
     (Inr row_x, \<lparr>elevators = [], movements = [row_x]\<rparr>) \<and>
   fst (log_movement first_call first_clock db_registered) = Inr row_x"
  using log_movement_unknown_elevator
          [where m = first_call and db = empty_database and clk = first_clock]
  by (simp add: log_first log_unregistered scenario_fits)
     (simp add: empty_database_def)

text \<open>
  The call with \<open>elevator_id\<close> \<open>2 ^ 63\<close>, which no registered elevator has: the SELECT
  raises, and no movement is inserted or returned.
\<close>

theorem log_movement_unknown_elevator_overflow:
  "mc_elevator_id high_elevator_call \<notin> el_id ` set (elevators db_registered) \<and>
   log_movement high_elevator_call first_clock db_registered =
     (Inl OverflowError, db_registered)"
proof -
  have "mc_elevator_id high_elevator_call \<notin> el_id ` set (elevators db_registered)"
    by (simp add: db_registered_eq high_elevator_call_def)
  moreover have "log_movement high_elevator_call first_clock db_registered =
     (Inl OverflowError, db_registered)"
    by (simp add: high_elevator_call_def log_movement_def)
  ultimately show ?thesis by simp
qed

section \<open>Listings\<close>

text \<open>
  C6. \<open>get_resting_elevators\<close> returns exactly the movement rows whose
  \<open>departure_time\<close> is null: each such row of the table is in the result, each row of the
  result is such a row of the table, and nothing else (no time threshold) decides
  membership.
\<close>

theorem get_resting_elevators_exact:
  "set (get_resting_elevators db) = {r. r \<in> set (movements db) \<and> departure_time r = None}"
  by (auto simp: get_resting_elevators_def)





text \<open>
  The route of that handler. The path segment never reaches the handler: a request with no
  \<open>eid\<close> in its query string is refused, whatever its path, and a request with one is
  answered for that \<open>eid\<close>, whatever its path.
\<close>

lemma get_movements_route_requires_query:
  "query_eid req = None \<Longrightarrow> get_movements_route req db = Inl RequestValidationError"
  by (simp add: get_movements_route_def)

lemma get_movements_route_ignores_path:
  "get_movements_route (req\<lparr>path_elevator_id := p\<rparr>) db = get_movements_route req db"
  by (simp add: get_movements_route_def)

lemma get_movements_route_at_1:
  "get_movements_route get_movements_1 db_first = Inl RequestValidationError \<and>
   filter (\<lambda>r. elevator_id r = 1) (movements db_first) = [row_x]"
  by (simp add: get_movements_route_def get_movements_1_def scenario_tables row_x_def)

section \<open>Facts about the report\<close>

lemma comprehension_Inr:
  "(\<And>x. x \<in> set xs \<Longrightarrow> \<exists>y. f x = Inr y) \<Longrightarrow>
   \<exists>ys. comprehension f xs = Inr ys \<and> length ys = length xs \<and>
        (\<forall>i<length xs. f (xs ! i) = Inr (ys ! i))"
proof (induction xs)
  case Nil
  then show ?case by simp
next
  case (Cons x xs)
  from Cons.prems obtain y where y: "f x = Inr y" by auto
  from Cons obtain ys where ys: "comprehension f xs = Inr ys" "length ys = length xs"
     "\<forall>i<length xs. f (xs ! i) = Inr (ys ! i)" by auto
  have "\<forall>i<length (x # xs). f ((x # xs) ! i) = Inr ((y # ys) ! i)"
    using y ys(3) by (auto simp: nth_Cons split: nat.split)
  with y ys show ?case by simp
qed

lemma set_group_keys: "set (group_keys db) = group_key ` set (closed_rows db)"
  by (simp add: group_keys_def)

lemma distinct_group_keys: "distinct (group_keys db)"
  by (simp add: group_keys_def)

lemma group_rows_nonempty: "k \<in> set (group_keys db) \<Longrightarrow> group_rows k db \<noteq> []"
  by (auto simp: set_group_keys group_rows_def filter_empty_conv)

lemma group_rows_member:
  "r \<in> set (group_rows k db) \<Longrightarrow>
     r \<in> set (movements db) \<and> departure_time r \<noteq> None \<and> group_key r = k"
  by (auto simp: group_rows_def closed_rows_def)

lemma count_by_key:
  assumes "finite A" and "f ` set xs \<subseteq> A"
  shows "(\<Sum>k\<in>A. length (filter (\<lambda>r. f r = k) xs)) = length xs"
  using assms(2)
proof (induction xs)
  case Nil
  then show ?case by simp
next
  case (Cons x xs)
  then have xA: "f x \<in> A" and rest: "f ` set xs \<subseteq> A" by auto
  have "(\<Sum>k\<in>A. length (filter (\<lambda>r. f r = k) (x # xs))) =
        (\<Sum>k\<in>A. (if f x = k then 1 else 0) + length (filter (\<lambda>r. f r = k) xs))"
    by (rule sum.cong) auto
  also have "\<dots> = (\<Sum>k\<in>A. if f x = k then 1 else 0) + (\<Sum>k\<in>A. length (filter (\<lambda>r. f r = k) xs))"
    by (rule sum.distrib)
  also have "(\<Sum>k\<in>A. if f x = k then 1 else 0) = (1::nat)"
    using assms(1) xA by simp
  finally show ?case using Cons.IH [OF rest] by simp
qed

lemma group_counts_sum:
  "sum_list (map (\<lambda>k. length (group_rows k db)) (group_keys db)) = length (closed_rows db)"
proof -
  have "sum_list (map (\<lambda>k. length (group_rows k db)) (group_keys db)) =
        (\<Sum>k\<in>set (group_keys db). length (group_rows k db))"
    using distinct_group_keys by (rule sum_list_distinct_conv_sum_set)
  also have "\<dots> = (\<Sum>k\<in>group_key ` set (closed_rows db).
                      length (filter (\<lambda>r. group_key r = k) (closed_rows db)))"
    by (simp add: set_group_keys group_rows_def)
  also have "\<dots> = length (closed_rows db)"
    by (rule count_by_key) simp_all
  finally show ?thesis .
qed


lemma picked_row:
  assumes "picks_from_groups pick db" and "k \<in> set (group_keys db)"
  shows "pick (group_rows k db) \<in> set (movements db) \<and>
         departure_time (pick (group_rows k db)) \<noteq> None \<and>
         start_floor (pick (group_rows k db)) = fst k \<and>
         end_floor (pick (group_rows k db)) = snd k"
proof -
  from assms have "pick (group_rows k db) \<in> set (group_rows k db)"
    by (simp add: picks_from_groups_def list_all_iff)
  from group_rows_member [OF this] show ?thesis
    by (cases k) (auto simp: group_key_def)
qed

lemma elapsed_of_group_tuple:
  assumes "picks_from_groups pick db" and "k \<in> set (group_keys db)"
  shows "\<exists>t. departure_time (pick (group_rows k db)) = Some t \<and>
           elapsed_of (group_tuple pick db k) =
             Inr \<lparr>ee_start_floor = fst k, ee_end_floor = snd k,
                  ee_elevator_id = elevator_id (pick (group_rows k db)),
                  elapsed_time_secs = t - arrival_time (pick (group_rows k db))\<rparr>"
proof -
  from picked_row [OF assms] obtain t where
    t: "departure_time (pick (group_rows k db)) = Some t"
    and fl: "start_floor (pick (group_rows k db)) = fst k" "end_floor (pick (group_rows k db)) = snd k"
    by auto
  then show ?thesis
    by (simp add: elapsed_of_def group_tuple_def sub_datetime_def Let_def)
qed

lemma formatted_demand_data_nth:
  assumes "picks_from_groups pick db" and "i < length (group_keys db)"
  shows "formatted_demand_data (demand_data pick db) ! i =
           \<lparr>requested_floor = fst (group_keys db ! i),
            destination_floor = snd (group_keys db ! i),
            count = length (group_rows (group_keys db ! i) db)\<rparr>"
proof -
  from assms(2) have "group_keys db ! i \<in> set (group_keys db)" by simp
  from picked_row [OF assms(1) this] assms(2) show ?thesis
    by (simp add: formatted_demand_data_def demand_data_def group_tuple_def Let_def)
qed

lemma training_counts:
  "map count (formatted_demand_data (demand_data pick db)) =
     map (\<lambda>k. length (group_rows k db)) (group_keys db)"
  by (simp add: formatted_demand_data_def demand_data_def group_tuple_def Let_def)

lemma get_ml_data_returns:
  assumes "picks_from_groups pick db"
  shows "\<exists>el. get_ml_data pick db =
                Inr \<lparr>training_data = formatted_demand_data (demand_data pick db),
                     elapsed_data = el\<rparr> \<and>
              length el = length (group_keys db) \<and>
              (\<forall>i<length (group_keys db).
                 elapsed_of (group_tuple pick db (group_keys db ! i)) = Inr (el ! i))"
proof -
  have "\<exists>y. elapsed_of d = Inr y" if "d \<in> set (demand_data pick db)" for d
  proof -
    from that obtain k where "k \<in> set (group_keys db)" "d = group_tuple pick db k"
      by (auto simp: demand_data_def)
    with elapsed_of_group_tuple [OF assms, of k] show ?thesis by auto
  qed
  from comprehension_Inr [of "demand_data pick db" elapsed_of, OF this]
  obtain el where el: "comprehension elapsed_of (demand_data pick db) = Inr el"
    "length el = length (demand_data pick db)"
    "\<forall>i<length (demand_data pick db). elapsed_of (demand_data pick db ! i) = Inr (el ! i)"
    by blast
  then show ?thesis
    by (auto simp: get_ml_data_def demand_data_def Let_def)
qed

text \<open>
  C4. Whatever row of each group the engine reads, \<open>get_ml_data\<close> returns, and its
  \<open>training_data\<close> has one entry per distinct pair of \<open>start_floor\<close> and \<open>end_floor\<close> among
  the rows with a \<open>departure_time\<close>; the counts of these entries add up to the number of
  movement rows with a \<open>departure_time\<close>.
\<close>

theorem training_counts_sum_to_closed_rows:
  assumes "picks_from_groups pick db"
  shows "\<exists>d. get_ml_data pick db = Inr d \<and>
           map (\<lambda>t. (requested_floor t, destination_floor t)) (training_data d) =
             group_keys db \<and>
           distinct (group_keys db) \<and>
           set (group_keys db) =
             {(start_floor r, end_floor r) | r. r \<in> set (movements db) \<and> departure_time r \<noteq> None} \<and>
           sum_list (map count (training_data d)) =
             length (filter (\<lambda>r. departure_time r \<noteq> None) (movements db))"
proof -
  from get_ml_data_returns [OF assms] obtain el where
    el: "get_ml_data pick db =
           Inr \<lparr>training_data = formatted_demand_data (demand_data pick db), elapsed_data = el\<rparr>"
    by blast
  let ?td = "formatted_demand_data (demand_data pick db)"
  have len: "length ?td = length (group_keys db)"
    by (simp add: formatted_demand_data_def demand_data_def)
  have keys: "map (\<lambda>t. (requested_floor t, destination_floor t)) ?td = group_keys db"
    by (rule nth_equalityI) (simp_all add: len formatted_demand_data_nth [OF assms])
  have set_keys: "set (group_keys db) =
      {(start_floor r, end_floor r) | r. r \<in> set (movements db) \<and> departure_time r \<noteq> None}"
    by (auto simp: set_group_keys closed_rows_def group_key_def)
  have "sum_list (map count ?td) = length (closed_rows db)"
    by (simp add: training_counts group_counts_sum)
  then have "sum_list (map count ?td) =
      length (filter (\<lambda>r. departure_time r \<noteq> None) (movements db))"
    by (simp add: closed_rows_def)
  with el keys set_keys distinct_group_keys [of db] show ?thesis by simp
qed

text \<open>
  C5. \<open>get_ml_data\<close> returns an \<open>elapsed_data\<close> list as long as \<open>training_data\<close>. The
  entries at the same position carry the same pair of floors, and the elapsed time and
  the \<open>elevator_id\<close> of an entry are those of one movement row of that pair:
  its \<open>departure_time\<close> minus its \<open>arrival_time\<close>. In \<open>db_report\<close> the group of floors 1
  and 5 has two rows, with elapsed times 30 and 70, and one entry, which is neither their
  sum nor their mean.
\<close>

theorem elapsed_data_aligned_with_training_data:
  assumes "picks_from_groups pick db"
  shows "\<exists>d. get_ml_data pick db = Inr d \<and>
           length (elapsed_data d) = length (training_data d) \<and>
           (\<forall>i<length (training_data d).
              ee_start_floor (elapsed_data d ! i) = requested_floor (training_data d ! i) \<and>
              ee_end_floor (elapsed_data d ! i) = destination_floor (training_data d ! i) \<and>
              (\<exists>r t. r \<in> set (movements db) \<and>
                 start_floor r = requested_floor (training_data d ! i) \<and>
                 end_floor r = destination_floor (training_data d ! i) \<and>
                 departure_time r = Some t \<and>
                 ee_elevator_id (elapsed_data d ! i) = elevator_id r \<and>
                 elapsed_time_secs (elapsed_data d ! i) = t - arrival_time r))"
proof -
  from get_ml_data_returns [OF assms] obtain el where
    el: "get_ml_data pick db =
           Inr \<lparr>training_data = formatted_demand_data (demand_data pick db), elapsed_data = el\<rparr>"
      "length el = length (group_keys db)"
      "\<forall>i<length (group_keys db).
          elapsed_of (group_tuple pick db (group_keys db ! i)) = Inr (el ! i)"
    by blast
  let ?td = "formatted_demand_data (demand_data pick db)"
  have len: "length ?td = length (group_keys db)"
    by (simp add: formatted_demand_data_def demand_data_def)
  have entry: "ee_start_floor (el ! i) = requested_floor (?td ! i) \<and>
              ee_end_floor (el ! i) = destination_floor (?td ! i) \<and>
              (\<exists>r t. r \<in> set (movements db) \<and>
                 start_floor r = requested_floor (?td ! i) \<and>
                 end_floor r = destination_floor (?td ! i) \<and>
                 departure_time r = Some t \<and>
                 ee_elevator_id (el ! i) = elevator_id r \<and>
                 elapsed_time_secs (el ! i) = t - arrival_time r)"
    if "i < length (group_keys db)" for i
  proof -
    let ?k = "group_keys db ! i"
    let ?rep = "pick (group_rows ?k db)"
    from that have k: "?k \<in> set (group_keys db)" by simp
    from elapsed_of_group_tuple [OF assms k] obtain t where
      t: "departure_time ?rep = Some t"
         "elapsed_of (group_tuple pick db ?k) =
             Inr \<lparr>ee_start_floor = fst ?k, ee_end_floor = snd ?k,
                  ee_elevator_id = elevator_id ?rep,
                  elapsed_time_secs = t - arrival_time ?rep\<rparr>"
      by blast
    with el(3) that have eli: "el ! i = \<lparr>ee_start_floor = fst ?k, ee_end_floor = snd ?k,
                  ee_elevator_id = elevator_id ?rep,
                  elapsed_time_secs = t - arrival_time ?rep\<rparr>"
      by simp
    from picked_row [OF assms k] have rep: "?rep \<in> set (movements db)"
      "start_floor ?rep = fst ?k" "end_floor ?rep = snd ?k" by simp_all
    have tdi: "requested_floor (?td ! i) = fst ?k" "destination_floor (?td ! i) = snd ?k"
      using formatted_demand_data_nth [OF assms that] by simp_all
    have "\<exists>r t. r \<in> set (movements db) \<and>
                 start_floor r = requested_floor (?td ! i) \<and>
                 end_floor r = destination_floor (?td ! i) \<and>
                 departure_time r = Some t \<and>
                 ee_elevator_id (el ! i) = elevator_id r \<and>
                 elapsed_time_secs (el ! i) = t - arrival_time r"
      using rep t(1) tdi eli by (intro exI [of _ ?rep] exI [of _ t]) simp
    with eli tdi show ?thesis by simp
  qed
  with el(1,2) len show ?thesis by simp
qed

lemma report_keys: "group_keys db_report = [(0, 3), (1, 5)]"
  by (simp add: group_keys_def closed_rows_def db_report_def group_key_def)

lemma report_groups:
  "group_rows (0, 3) db_report =
     [\<lparr>mv_id = 2, elevator_id = 2, start_floor = 0, end_floor = 3,
       arrival_time = 110, departure_time = Some 150\<rparr>]"
  "group_rows (1, 5) db_report =
     [\<lparr>mv_id = 1, elevator_id = 1, start_floor = 1, end_floor = 5,
       arrival_time = 100, departure_time = Some 130\<rparr>,
      \<lparr>mv_id = 3, elevator_id = 3, start_floor = 1, end_floor = 5,
       arrival_time = 120, departure_time = Some 190\<rparr>]"
  by (simp_all add: group_rows_def closed_rows_def db_report_def group_key_def)

lemma report_picks: "picks_from_groups last db_report"
  by (simp add: picks_from_groups_def report_keys report_groups)

lemma report_demand:
  "demand_data last db_report =
     [\<lparr>d0_start_floor = 0, d1_end_floor = 3, d2_arrival_time = 110,
       d3_departure_time = Some 150, d4_count = 1, d5_elevator_id = 2\<rparr>,
      \<lparr>d0_start_floor = 1, d1_end_floor = 5, d2_arrival_time = 120,
       d3_departure_time = Some 190, d4_count = 2, d5_elevator_id = 3\<rparr>]"
  by (simp add: demand_data_def report_keys group_tuple_def report_groups Let_def)

lemma report_data:
  "get_ml_data last db_report =
     Inr \<lparr>training_data =
            [\<lparr>requested_floor = 0, destination_floor = 3, count = 1\<rparr>,
             \<lparr>requested_floor = 1, destination_floor = 5, count = 2\<rparr>],
          elapsed_data =
            [\<lparr>ee_start_floor = 0, ee_end_floor = 3, ee_elevator_id = 2,
              elapsed_time_secs = 40\<rparr>,
             \<lparr>ee_start_floor = 1, ee_end_floor = 5, ee_elevator_id = 3,
              elapsed_time_secs = 70\<rparr>]\<rparr>"
  by (simp add: get_ml_data_def report_demand elapsed_of_def sub_datetime_def
      formatted_demand_data_def)

theorem training_counts_sum_to_closed_rows_witness:
  "picks_from_groups last db_report \<and>
   (\<exists>d. get_ml_data last db_report = Inr d \<and> map count (training_data d) = [1, 2]) \<and>
   length (filter (\<lambda>r. departure_time r \<noteq> None) (movements db_report)) = 3"
  using training_counts_sum_to_closed_rows [where pick = last and db = db_report]
  by (simp add: report_picks report_data)

theorem elapsed_data_aligned_with_training_data_witness:
  "picks_from_groups last db_report \<and>
   (\<exists>d. get_ml_data last db_report = Inr d \<and>
      length (training_data d) = 2 \<and>
      map elapsed_time_secs (elapsed_data d) = [40, 70])"
  using elapsed_data_aligned_with_training_data [where pick = last and db = db_report]
  by (simp add: report_picks report_data)

section \<open>Facts about the session dependency\<close>

lemma SessionLocal_opens: "fst (SessionLocal w) \<in> set (open_sessions (snd (SessionLocal w)))"
  by (simp add: SessionLocal_def)

lemma close_closes: "db \<notin> set (open_sessions (close db w))"
  by (simp add: close_def)

lemma depends_get_db_result:
  "depends_get_db handler w =
     (fst (handler (fst (SessionLocal w)) (snd (SessionLocal w))),
      close (fst (SessionLocal w)) (snd (handler (fst (SessionLocal w)) (snd (SessionLocal w)))))"
  by (simp add: depends_get_db_def split_beta split: sum.split prod.split)

text \<open>
  C9. A request that runs through \<open>get_db\<close> opens a session before the handler body and
  has closed it when the request ends, on both exits: when the body returns a value, and
  when it raises, in which case the exception reaches the caller after the close.
\<close>

theorem depends_get_db_closes_session:
  "let db = fst (SessionLocal w); w1 = snd (SessionLocal w) in
     db \<in> set (open_sessions w1) \<and>
     (\<forall>v w2. handler db w1 = (Inr v, w2) \<longrightarrow> depends_get_db handler w = (Inr v, close db w2)) \<and>
     (\<forall>e w2. handler db w1 = (Inl e, w2) \<longrightarrow> depends_get_db handler w = (Inl e, close db w2)) \<and>
     db \<notin> set (open_sessions (snd (depends_get_db handler w)))"
  by (simp add: Let_def SessionLocal_opens depends_get_db_result close_closes)

theorem depends_get_db_closes_session_witness:
  "raising_handler 7 (snd (SessionLocal world0)) = (Inl ''storage failure'', snd (SessionLocal world0)) \<and>
   depends_get_db raising_handler world0 =
     (Inl ''storage failure'', \<lparr>store = db_first, next_session = 8, open_sessions = [4]\<rparr>) \<and>
   depends_get_db (log_movement_handler second_call second_clock) world0 =
     (Inr row_y, \<lparr>store = db_second, next_session = 8, open_sessions = [4]\<rparr>) \<and>
   depends_get_db (log_movement_handler high_start_call second_clock) world0 =
     (Inl OverflowError,
      \<lparr>store = snd (log_movement high_start_call second_clock db_first),
       next_session = 8, open_sessions = [4]\<rparr>)"
  using depends_get_db_closes_session [where handler = raising_handler and w = world0]
    depends_get_db_closes_session
      [where handler = "log_movement_handler second_call second_clock" and w = world0]
    depends_get_db_closes_session
      [where handler = "log_movement_handler high_start_call second_clock" and w = world0]
  by (simp add: raising_handler_def world0_def SessionLocal_def close_def
      log_movement_handler_def log_second log_high_start db_second_def Let_def)

end
